theory Spec2Isabelle
  imports Complex_Main "HOL-Library.Word" "HOL-Library.AList"
begin

unbundle bit_operations_syntax

section \<open>Hamming comparator (image\_util.py, calculate\_hamming\_distance)\<close>

text \<open>
  The comparator returns a Python number: \<open>float('inf')\<close> when the two strings have
  different lengths, and otherwise the \<open>int\<close> counter of the loop. The two outcomes
  are kept apart in the result type.
\<close>

datatype distance = Finite nat | Infinity

text \<open>
  One pass of the loop body \<open>if hash1[i] != hash2[i]: distance += 1\<close>. The loop runs
  over \<open>range(len(hash1))\<close>; the length test in front of it makes every index valid in
  both strings.
\<close>

definition hamming_step :: "string \<Rightarrow> string \<Rightarrow> nat \<Rightarrow> nat \<Rightarrow> nat" where
  "hamming_step hash1 hash2 i distance =
     (if hash1 ! i \<noteq> hash2 ! i then distance + 1 else distance)"

definition calculate_hamming_distance :: "string \<Rightarrow> string \<Rightarrow> distance" where
  "calculate_hamming_distance hash1 hash2 =
     (if length hash1 \<noteq> length hash2 then Infinity
      else Finite (fold (hamming_step hash1 hash2) [0..<length hash1] 0))"

text \<open>
  The comparison \<open>hamming_distance <= threshold\<close> of the clusterer, for an integer
  threshold: positive infinity is below no integer.
\<close>

fun distance_le :: "distance \<Rightarrow> int \<Rightarrow> bool" where
  "distance_le (Finite d) threshold = (int d \<le> threshold)"
| "distance_le Infinity threshold = False"

section \<open>Exceptions\<close>

text \<open>
  The kinds of exception that the modelled code or its libraries raise. Every function
  below that can raise returns \<open>error + 'a\<close>; a \<open>try ... except Exception\<close> that
  returns \<open>None\<close> turns any \<open>Inl\<close> into \<open>None\<close>.
\<close>

datatype error = ValueError | ZeroDivisionError | OSError | UnidentifiedImageError

type_synonym bytes = "char list"

text \<open>Python's \<open>not x\<close> for a value that is \<open>None\<close> or a string.\<close>

definition py_not :: "string option \<Rightarrow> bool" where
  "py_not x = (case x of None \<Rightarrow> True | Some s \<Rightarrow> s = [])"

section \<open>The imaging library (PIL, hashlib)\<close>

text \<open>
  Decoding, colour conversion, Lanczos resampling, PNG encoding and SHA-256 belong to
  libraries outside the repository. They are parameters of the model: a record of the
  operations the code calls, each returning \<open>Inl\<close> where the library raises.
  \<open>getdata\<close> is the row-major pixel sequence (left to right, top to bottom) of a
  single-band image.
\<close>

record 'img pil =
  image_open_path :: "string \<Rightarrow> error + 'img"
  image_open_stream :: "bytes \<Rightarrow> error + 'img"
  mode_of :: "'img \<Rightarrow> string"
  convert :: "'img \<Rightarrow> string \<Rightarrow> error + 'img"
  resize_lanczos :: "'img \<Rightarrow> nat \<times> nat \<Rightarrow> error + 'img"
  save_png :: "'img \<Rightarrow> error + bytes"
  getdata :: "'img \<Rightarrow> int list"
  sha256_hexdigest :: "bytes \<Rightarrow> string"

text \<open>
  The accepted shapes of \<open>image_input\<close>: a path (\<open>str\<close>), a decoded image, \<open>bytes\<close> or
  \<open>bytearray\<close>, an \<open>io.BytesIO\<close> stream, and anything else.
\<close>

datatype 'img image_input =
    Str string
  | PILImage 'img
  | Bytes bytes
  | BytesIO bytes
  | Other

section \<open>Input normalizer and canonicalizer (image\_util.py)\<close>

fun load_image_from_input :: "'img pil \<Rightarrow> 'img image_input \<Rightarrow> error + 'img" where
  "load_image_from_input lib (Str file_path) = image_open_path lib file_path"
| "load_image_from_input lib (PILImage img) = Inr img"
| "load_image_from_input lib (Bytes data) = image_open_stream lib data"
| "load_image_from_input lib (BytesIO data) = image_open_stream lib data"
| "load_image_from_input lib Other = Inl ValueError"

definition prepare_image_for_hash ::
  "'img pil \<Rightarrow> 'img \<Rightarrow> nat \<times> nat \<Rightarrow> string \<Rightarrow> error + 'img" where
  "prepare_image_for_hash lib img target mode =
     (case (if mode_of lib img \<noteq> mode then convert lib img mode else Inr img) of
        Inl e \<Rightarrow> Inl e
      | Inr img' \<Rightarrow> resize_lanczos lib img' target)"

section \<open>Exact-content hasher (calculate\_image\_hash)\<close>

definition calculate_image_hash :: "'img pil \<Rightarrow> 'img image_input \<Rightarrow> string option" where
  "calculate_image_hash lib image_input =
     (case load_image_from_input lib image_input of
        Inl e \<Rightarrow> None
      | Inr img \<Rightarrow>
          (case prepare_image_for_hash lib img (64, 64) ''RGB'' of
             Inl e \<Rightarrow> None
           | Inr img_processed \<Rightarrow>
               (case save_png lib img_processed of
                  Inl e \<Rightarrow> None
                | Inr img_data \<Rightarrow> Some (sha256_hexdigest lib img_data))))"

section \<open>Perceptual hasher (calculate\_image\_perceptual\_hash)\<close>

text \<open>
  \<open>int(hash_string, 2)\<close> on the strings the hasher builds: a non-empty string of the
  characters 0 and 1 is read as a binary numeral, most significant digit first; the
  empty string raises \<open>ValueError\<close>. (Python accepts some further spellings, such as a
  sign or a \<open>0b\<close> prefix, that the hasher never produces; they are \<open>ValueError\<close>
  here.)
\<close>

definition int_base2 :: "string \<Rightarrow> error + int" where
  "int_base2 s =
     (if s \<noteq> [] \<and> list_all (\<lambda>c. c = CHR ''0'' \<or> c = CHR ''1'') s
      then Inr (fold (\<lambda>c n. 2 * n + (if c = CHR ''1'' then 1 else 0)) s 0)
      else Inl ValueError)"

text \<open>
  The format specification \<open>016x\<close>: lowercase hexadecimal digits, padded with zeros
  on the left to a width of at least 16 (the sign, if any, counts in the width).
\<close>

definition hex_digit :: "nat \<Rightarrow> char" where
  "hex_digit d = ''0123456789abcdef'' ! d"

fun hex_digits :: "nat \<Rightarrow> string" where
  "hex_digits n =
     (if n < 16 then [hex_digit n] else hex_digits (n div 16) @ [hex_digit (n mod 16)])"

declare hex_digits.simps [simp del]

definition zero_pad :: "nat \<Rightarrow> string \<Rightarrow> string" where
  "zero_pad width s = replicate (width - length s) CHR ''0'' @ s"

definition format_016x :: "int \<Rightarrow> string" where
  "format_016x n =
     (if n < 0 then CHR ''-'' # zero_pad 15 (hex_digits (nat (- n)))
      else zero_pad 16 (hex_digits (nat n)))"

text \<open>
  The part of the hasher after \<open>getdata\<close>. The mean \<open>sum(pixels) / len(pixels)\<close> is a
  true division, modelled by the exact quotient: for the 64 values between 0 and 255 of
  an 8 by 8 image in mode L the sum is at most 16320 and the divisor is a power of two,
  so the floating-point quotient is exact, and Python compares an \<open>int\<close> with a
  \<open>float\<close> exactly. An empty pixel list raises \<open>ZeroDivisionError\<close>.
\<close>

definition perceptual_hash_of_pixels :: "int list \<Rightarrow> error + string" where
  "perceptual_hash_of_pixels pixels =
     (if length pixels = 0 then Inl ZeroDivisionError
      else
        let avg_pixel = (of_int (sum_list pixels) / of_int (int (length pixels)) :: rat);
            hash_bits = fold (\<lambda>pixel hash_bits.
                          hash_bits @ [if of_int pixel > avg_pixel then CHR ''1'' else CHR ''0''])
                        pixels [];
            hash_string = hash_bits
        in case int_base2 hash_string of
             Inl e \<Rightarrow> Inl e
           | Inr hash_int \<Rightarrow> Inr (format_016x hash_int))"

definition calculate_image_perceptual_hash ::
  "'img pil \<Rightarrow> 'img image_input \<Rightarrow> string option" where
  "calculate_image_perceptual_hash lib image_input =
     (case load_image_from_input lib image_input of
        Inl e \<Rightarrow> None
      | Inr img \<Rightarrow>
          (case prepare_image_for_hash lib img (8, 8) ''L'' of
             Inl e \<Rightarrow> None
           | Inr img_processed \<Rightarrow>
               (case perceptual_hash_of_pixels (getdata lib img_processed) of
                  Inl e \<Rightarrow> None
                | Inr h \<Rightarrow> Some h)))"

section \<open>Combined entry point (calculate\_image\_hashes)\<close>

text \<open>
  The returned dictionary with the keys \<open>image_hash\<close>, \<open>perceptual_hash\<close> and
  \<open>success\<close>. Both sub-computations catch every exception themselves, so the
  \<open>except\<close> branch of the entry point is never taken.
\<close>

record hashes =
  hashes_image_hash :: "string option"
  hashes_perceptual_hash :: "string option"
  hashes_success :: bool

definition calculate_image_hashes :: "'img pil \<Rightarrow> 'img image_input \<Rightarrow> hashes" where
  "calculate_image_hashes lib image_input =
     (let image_hash = calculate_image_hash lib image_input;
          perceptual_hash = calculate_image_perceptual_hash lib image_input
      in \<lparr>hashes_image_hash = image_hash,
          hashes_perceptual_hash = perceptual_hash,
          hashes_success = (image_hash \<noteq> None \<and> perceptual_hash \<noteq> None)\<rparr>)"

section \<open>File information (get\_file\_info, detect\_mime\_type\_by\_content)\<close>

text \<open>
  The operating system and the \<open>mimetypes\<close> table are parameters: \<open>os_stat_size\<close>
  is \<open>os.stat(path).st_size\<close>, \<open>open_rb\<close> is the content of the file opened for
  reading, \<open>guess_type\<close> is the first component of \<open>mimetypes.guess_type(path)\<close>,
  the lookup by file extension.
\<close>

record os_env =
  os_stat_size :: "string \<Rightarrow> error + nat"
  open_rb :: "string \<Rightarrow> error + bytes"
  guess_type :: "string \<Rightarrow> string option"

record file_info =
  file_size :: "nat option"
  mime_type :: "string option"

text \<open>\<open>header.startswith(prefix)\<close> and \<open>needle in haystack\<close> on \<open>bytes\<close>.\<close>

definition startswith :: "bytes \<Rightarrow> bytes \<Rightarrow> bool" where
  "startswith header p = (take (length p) header = p)"

fun bytes_in :: "bytes \<Rightarrow> bytes \<Rightarrow> bool" where
  "bytes_in needle [] = (needle = [])"
| "bytes_in needle (x # xs) = (startswith (x # xs) needle \<or> bytes_in needle xs)"

definition detect_mime_type_by_content :: "os_env \<Rightarrow> string \<Rightarrow> string option" where
  "detect_mime_type_by_content env file_path =
     (case open_rb env file_path of
        Inl e \<Rightarrow> None
      | Inr content \<Rightarrow>
          (let header = take 32 content in
           if startswith header [CHR 0xFF, CHR 0xD8, CHR 0xFF] then Some ''image/jpeg''
           else if startswith header
                     [CHR 0x89, CHR ''P'', CHR ''N'', CHR ''G'', CHR 0x0D, CHR 0x0A, CHR 0x1A, CHR 0x0A]
             then Some ''image/png''
           else if startswith header ''GIF87a'' \<or> startswith header ''GIF89a''
             then Some ''image/gif''
           else if startswith header ''RIFF'' \<and> bytes_in ''WEBP'' (take 12 header)
             then Some ''image/webp''
           else if startswith header ''BM'' then Some ''image/bmp''
           else if startswith header [CHR 0x00, CHR 0x00, CHR 0x01, CHR 0x00]
             then Some ''image/x-icon''
           else Some ''application/octet-stream''))"

definition get_file_info :: "os_env \<Rightarrow> string \<Rightarrow> file_info" where
  "get_file_info env file_path =
     (case os_stat_size env file_path of
        Inl e \<Rightarrow> \<lparr>file_size = None, mime_type = None\<rparr>
      | Inr st_size \<Rightarrow>
          (let guessed = guess_type env file_path;
               resolved = (if py_not guessed then detect_mime_type_by_content env file_path
                           else guessed)
           in \<lparr>file_size = Some st_size, mime_type = resolved\<rparr>))"

section \<open>Catalogue records (metadata.py, Images\_metadata)\<close>

text \<open>
  The columns of a metadata row that the grouping functions read. A Python attribute
  can hold \<open>None\<close>; the schema declares \<open>image_hash\<close> as \<open>nullable=False\<close> and leaves
  \<open>perceptual_hash\<close> nullable.
\<close>

record images_metadata =
  meta_id :: nat
  image_id :: nat
  image_hash :: "string option"
  perceptual_hash :: "string option"


section \<open>Duplicate grouper (database.py, find\_duplicate\_images)\<close>

text \<open>
  The dictionary \<open>hash_groups\<close> keeps its keys in insertion order, which is the order
  \<open>items()\<close> iterates in: it is an association list, where \<open>AList.update\<close> replaces
  the value of a key in place and puts a new key at the end.
\<close>

type_synonym hash_groups = "(string option \<times> images_metadata list) list"

definition hash_groups_step :: "images_metadata \<Rightarrow> hash_groups \<Rightarrow> hash_groups" where
  "hash_groups_step meta hash_groups =
     (case map_of hash_groups (image_hash meta) of
        Some metas \<Rightarrow> AList.update (image_hash meta) (metas @ [meta]) hash_groups
      | None \<Rightarrow> AList.update (image_hash meta) [meta] hash_groups)"

record duplicate_group =
  dup_image_hash :: "string option"
  dup_count :: nat
  dup_images :: "images_metadata list"

definition duplicates_step ::
  "string option \<times> images_metadata list \<Rightarrow> duplicate_group list \<Rightarrow> duplicate_group list" where
  "duplicates_step item duplicates =
     (case item of (h, metas) \<Rightarrow>
        if length metas > 1
        then duplicates @ [\<lparr>dup_image_hash = h, dup_count = length metas, dup_images = metas\<rparr>]
        else duplicates)"

text \<open>
  The argument is what \<open>session.query(Images_metadata).all()\<close> yields: the rows in query
  order, or an exception, which the function answers with the empty list.
\<close>

definition find_duplicate_images :: "error + images_metadata list \<Rightarrow> duplicate_group list" where
  "find_duplicate_images query_all =
     (case query_all of
        Inl e \<Rightarrow> []
      | Inr metadata_list \<Rightarrow>
          (let hash_groups = fold hash_groups_step metadata_list []
           in fold duplicates_step hash_groups []))"

section \<open>Similarity clusterer (database.py, find\_similar\_images)\<close>

record similar_group =
  sim_threshold :: int
  sim_count :: nat
  sim_images :: "images_metadata list"

text \<open>
  The body of the inner loop over \<open>metadata_list[i+1:]\<close>, for an anchor whose
  fingerprint is \<open>hash1\<close>.
\<close>

definition similar_inner_step ::
  "int \<Rightarrow> string \<Rightarrow> images_metadata \<Rightarrow> images_metadata list \<Rightarrow> images_metadata list" where
  "similar_inner_step threshold hash1 meta2 similar_images =
     (case perceptual_hash meta2 of
        None \<Rightarrow> similar_images
      | Some hash2 \<Rightarrow>
          if hash2 = [] then similar_images
          else if distance_le (calculate_hamming_distance hash1 hash2) threshold
            then similar_images @ [meta2]
          else similar_images)"

text \<open>The body of the outer loop over \<open>enumerate(metadata_list)\<close>, at index \<open>i\<close>.\<close>

definition similar_outer_step ::
  "int \<Rightarrow> images_metadata list \<Rightarrow> nat \<Rightarrow> similar_group list \<Rightarrow> similar_group list" where
  "similar_outer_step threshold metadata_list i similar_groups =
     (let meta1 = metadata_list ! i in
      case perceptual_hash meta1 of
        None \<Rightarrow> similar_groups
      | Some hash1 \<Rightarrow>
          if hash1 = [] then similar_groups
          else
            (let similar_images =
                   fold (similar_inner_step threshold hash1) (drop (i + 1) metadata_list) [meta1]
             in if length similar_images > 1
                then similar_groups @
                       [\<lparr>sim_threshold = threshold, sim_count = length similar_images,
                         sim_images = similar_images\<rparr>]
                else similar_groups))"

definition find_similar_images ::
  "error + images_metadata list \<Rightarrow> int \<Rightarrow> similar_group list" where
  "find_similar_images query_all threshold =
     (case query_all of
        Inl e \<Rightarrow> []
      | Inr metadata_list \<Rightarrow>
          fold (similar_outer_step threshold metadata_list) [0..<length metadata_list] [])"

section \<open>A stand-in library for concrete runs\<close>

text \<open>
  A small instance of the library record, used to run the model on concrete inputs. An
  image is its mode with its pixel values, already of the requested size; conversion
  relabels the mode. As in Pillow's \<open>Image.convert\<close>, an image in mode LAB converts
  to RGB, RGBA and RGBX only (through the colour management transform), and the
  conversion from LAB to any other mode, L among them, raises \<open>ValueError\<close>. Paths
  and byte strings do not decode.
\<close>

definition example_pil :: "(string \<times> int list) pil" where
  "example_pil =
     \<lparr>image_open_path = (\<lambda>file_path. Inl OSError),
      image_open_stream = (\<lambda>data. Inl UnidentifiedImageError),
      mode_of = fst,
      convert = (\<lambda>img mode.
         if fst img = ''LAB'' \<and> mode \<noteq> ''LAB'' \<and> mode \<noteq> ''RGB'' \<and>
            mode \<noteq> ''RGBA'' \<and> mode \<noteq> ''RGBX''
         then Inl ValueError else Inr (mode, snd img)),
      resize_lanczos = (\<lambda>img target. Inr img),
      save_png = (\<lambda>img. Inr (map (\<lambda>v. char_of v) (snd img))),
      getdata = snd,
      sha256_hexdigest = (\<lambda>data. replicate 64 CHR ''a'')\<rparr>"

text \<open>
  A small file system: \<open>upload_0001\<close> holds the first bytes of a JPEG file and has
  no extension; \<open>logo.png\<close> has an extension that the table knows.
\<close>

definition example_os :: os_env where
  "example_os =
     \<lparr>os_stat_size = (\<lambda>file_path.
         if file_path = ''upload_0001'' then Inr 6
         else if file_path = ''logo.png'' then Inr 3
         else Inl OSError),
      open_rb = (\<lambda>file_path.
         if file_path = ''upload_0001''
           then Inr [CHR 0xFF, CHR 0xD8, CHR 0xFF, CHR 0xE0, CHR 0x00, CHR 0x10]
         else if file_path = ''logo.png'' then Inr ''abc''
         else Inl OSError),
      guess_type = (\<lambda>file_path.
         if file_path = ''logo.png'' then Some ''image/png'' else None)\<rparr>"

section \<open>The anchor scan in terms of indices\<close>

text \<open>
  The description of the clusterer that its result is compared with. Two records are
  within the threshold when both carry a (non-empty) perceptual fingerprint and the
  distance of the fingerprints is at most the threshold; \<open>later_within\<close> lists, in
  increasing order, the indices after \<open>i\<close> whose record is within the threshold of the
  record at \<open>i\<close>.
\<close>

definition within_threshold :: "int \<Rightarrow> images_metadata \<Rightarrow> images_metadata \<Rightarrow> bool" where
  "within_threshold threshold meta1 meta2 =
     (case perceptual_hash meta1 of
        None \<Rightarrow> False
      | Some hash1 \<Rightarrow>
          (case perceptual_hash meta2 of
             None \<Rightarrow> False
           | Some hash2 \<Rightarrow>
               hash1 \<noteq> [] \<and> hash2 \<noteq> [] \<and>
               distance_le (calculate_hamming_distance hash1 hash2) threshold))"

definition later_within :: "int \<Rightarrow> images_metadata list \<Rightarrow> nat \<Rightarrow> nat list" where
  "later_within threshold metadata_list i =
     filter (\<lambda>j. within_threshold threshold (metadata_list ! i) (metadata_list ! j))
       [Suc i..<length metadata_list]"

section \<open>The perceptual hash as the specification words it\<close>

text \<open>
  The steps of the specification, on the 64 pixel intensities of the canonical 8 by 8
  grayscale grid in scan order: the arithmetic mean; one bit per pixel, 1 when the pixel
  is strictly greater than the mean; the bits packed most significant bit first into an
  unsigned 64-bit integer; the integer written as 16 lowercase hexadecimal digits, the
  leading zeros included.
\<close>

definition spec_mean :: "int list \<Rightarrow> rat" where
  "spec_mean pixels = of_int (sum_list pixels) / 64"

definition spec_bits :: "int list \<Rightarrow> bool list" where
  "spec_bits pixels = map (\<lambda>pixel. of_int pixel > spec_mean pixels) pixels"

definition pack_msb_first :: "bool list \<Rightarrow> 64 word" where
  "pack_msb_first bits = fold (\<lambda>b w. push_bit 1 w OR of_bool b) bits 0"

definition hex16 :: "64 word \<Rightarrow> string" where
  "hex16 w = map (\<lambda>k. hex_digit (unat (drop_bit (4 * (15 - k)) w AND 15))) [0..<16]"

definition spec_perceptual_hash :: "int list \<Rightarrow> string" where
  "spec_perceptual_hash pixels = hex16 (pack_msb_first (spec_bits pixels))"

section \<open>Properties of the Hamming comparator\<close>

lemma fold_hamming_step_upt:
  "length hash1 = length hash2 \<Longrightarrow> n \<le> length hash1 \<Longrightarrow>
   fold (hamming_step hash1 hash2) [0..<n] 0 =
   length (filter (\<lambda>i. hash1 ! i \<noteq> hash2 ! i) [0..<n])"
  by (induction n) (simp_all add: hamming_step_def)

lemma hamming_count:
  "length hash1 = length hash2 \<Longrightarrow>
   calculate_hamming_distance hash1 hash2 =
   Finite (length (filter (\<lambda>i. hash1 ! i \<noteq> hash2 ! i) [0..<length hash1]))"
  by (simp add: calculate_hamming_distance_def fold_hamming_step_upt)

text \<open>
  Claim C1, as the code has it. The comparator counts differing characters, not differing
  bits: the fingerprints \<open>"0000000000000000"\<close> and \<open>"0000000000000003"\<close> differ in
  their last character only, so their distance is 1 (the two differing bits of the digit
  \<open>3\<close> are one differing character). The three distances are 1, 1 and 1.
\<close>

theorem C1_hamming_examples:
  "calculate_hamming_distance ''0000000000000000'' ''0000000000000001'' = Finite 1 \<and>
   calculate_hamming_distance ''0000000000000000'' ''0000000000000003'' = Finite 1 \<and>
   calculate_hamming_distance ''0000000000000001'' ''0000000000000003'' = Finite 1"
  by (simp add: calculate_hamming_distance_def hamming_step_def upt_conv_Cons)

text \<open>
  Claim C1, as stated: the value 2 for the pair (h0, h2) is not what the comparator
  returns.
\<close>

theorem C1_distance_h0_h2_not_2:
  "calculate_hamming_distance ''0000000000000000'' ''0000000000000003'' \<noteq> Finite 2"
  by (simp add: calculate_hamming_distance_def hamming_step_def upt_conv_Cons)

text \<open>
  Claim C6. For strings of different lengths the comparator returns the sentinel
  (positive infinity) as an ordinary result; in particular on \<open>"0000"\<close> and
  \<open>"00000"\<close>.
\<close>

theorem C6_incomparable_lengths:
  "length a \<noteq> length b \<Longrightarrow> calculate_hamming_distance a b = Infinity"
  by (simp add: calculate_hamming_distance_def)

theorem C6_incomparable_lengths_witness:
  "length ''0000'' \<noteq> length ''00000'' \<and>
   calculate_hamming_distance ''0000'' ''00000'' = Infinity"
  using C6_incomparable_lengths [of "''0000''" "''00000''"] by simp

text \<open>
  Claim C7. On strings of equal length the distance is symmetric, is 0 from a string to
  itself, and is a finite count of at most the common length (16 for 16-character
  fingerprints).
\<close>

theorem C7_symmetry_identity_bound:
  "length a = length b \<Longrightarrow>
   calculate_hamming_distance a b = calculate_hamming_distance b a \<and>
   calculate_hamming_distance a a = Finite 0 \<and>
   (\<exists>d. calculate_hamming_distance a b = Finite d \<and> d \<le> length a)"
proof -
  assume len: "length a = length b"
  have neq: "(\<lambda>i. a ! i \<noteq> b ! i) = (\<lambda>i. b ! i \<noteq> a ! i)"
    by (rule ext) (rule neq_commute)
  have sym: "calculate_hamming_distance a b = calculate_hamming_distance b a"
    using len by (simp add: hamming_count neq)
  have refl: "calculate_hamming_distance a a = Finite 0"
    by (simp add: hamming_count)
  have "length (filter (\<lambda>i. a ! i \<noteq> b ! i) [0..<length a]) \<le> length [0..<length a]"
    by (rule length_filter_le)
  then have bound: "\<exists>d. calculate_hamming_distance a b = Finite d \<and> d \<le> length a"
    using len by (simp add: hamming_count)
  from sym refl bound show ?thesis by blast
qed

theorem C7_symmetry_identity_bound_witness:
  "length ''00ff00ff00ff00ff'' = length ''0f0f0f0f0f0f0f0f'' \<and>
   calculate_hamming_distance ''00ff00ff00ff00ff'' ''0f0f0f0f0f0f0f0f'' =
     calculate_hamming_distance ''0f0f0f0f0f0f0f0f'' ''00ff00ff00ff00ff'' \<and>
   calculate_hamming_distance ''00ff00ff00ff00ff'' ''00ff00ff00ff00ff'' = Finite 0 \<and>
   (\<exists>d. calculate_hamming_distance ''00ff00ff00ff00ff'' ''0f0f0f0f0f0f0f0f'' = Finite d \<and>
        d \<le> length ''00ff00ff00ff00ff'')"
proof -
  have len: "length ''00ff00ff00ff00ff'' = length ''0f0f0f0f0f0f0f0f''"
    by simp
  show ?thesis
    by (rule conjI [OF len C7_symmetry_identity_bound [OF len]])
qed

section \<open>Loops that append\<close>

lemma fold_append_map:
  "fold (\<lambda>x acc. acc @ [f x]) xs acc = acc @ map f xs"
  by (induction xs arbitrary: acc) simp_all

section \<open>Properties of the perceptual hasher\<close>

lemma replicate_numeral_Cons: "replicate (numeral k) x = x # replicate (pred_numeral k) x"
  by (simp add: numeral_eq_Suc)

lemma fold_base2_zeros:
  "fold (\<lambda>c n. 2 * n + (if c = CHR ''1'' then 1 else 0)) (replicate k CHR ''0'') (0::int) = 0"
  by (induction k) (simp_all del: fold_replicate)

lemma int_base2_zeros: "0 < k \<Longrightarrow> int_base2 (replicate k CHR ''0'') = Inr 0"
  by (simp add: int_base2_def fold_base2_zeros list_all_iff del: fold_replicate)

lemma format_016x_zero: "format_016x 0 = ''0000000000000000''"
  by (simp add: format_016x_def zero_pad_def hex_digits.simps hex_digit_def replicate_numeral_Cons)

lemma perceptual_hash_of_pixels_map:
  "pixels \<noteq> [] \<Longrightarrow>
   perceptual_hash_of_pixels pixels =
     (case int_base2
        (map (\<lambda>pixel. if of_int pixel > (of_int (sum_list pixels) / of_int (int (length pixels)) :: rat)
                       then CHR ''1'' else CHR ''0'') pixels) of
        Inl e \<Rightarrow> Inl e
      | Inr hash_int \<Rightarrow> Inr (format_016x hash_int))"
  by (simp add: perceptual_hash_of_pixels_def fold_append_map)

lemma perceptual_hash_uniform:
  "0 < k \<Longrightarrow> perceptual_hash_of_pixels (replicate k v) = Inr ''0000000000000000''"
proof -
  assume k: "0 < k"
  have avg: "(of_int (sum_list (replicate k v)) / of_int (int (length (replicate k v))) :: rat) = of_int v"
    using k by (simp add: sum_list_replicate)
  have ne: "replicate k v \<noteq> []"
    using k by simp
  show ?thesis
    unfolding perceptual_hash_of_pixels_map [OF ne] avg
    using k by (simp add: int_base2_zeros format_016x_zero)
qed

text \<open>
  Claim C10. When the 8 by 8 grayscale form of an image has all 64 pixels equal, the
  perceptual hash is \<open>"0000000000000000"\<close>, whatever the shade: no pixel is
  strictly greater than the mean.
\<close>

theorem C10_uniform_image:
  "load_image_from_input lib image_input = Inr img \<Longrightarrow>
   prepare_image_for_hash lib img (8, 8) ''L'' = Inr img_processed \<Longrightarrow>
   getdata lib img_processed = replicate 64 v \<Longrightarrow>
   calculate_image_perceptual_hash lib image_input = Some ''0000000000000000''"
  by (simp add: calculate_image_perceptual_hash_def perceptual_hash_uniform del: replicate.simps)

theorem C10_uniform_image_witness:
  "load_image_from_input example_pil (PILImage (''L'', replicate 64 200)) = Inr (''L'', replicate 64 200) \<and>
   prepare_image_for_hash example_pil (''L'', replicate 64 200) (8, 8) ''L'' = Inr (''L'', replicate 64 200) \<and>
   getdata example_pil (''L'', replicate 64 200) = replicate 64 200 \<and>
   calculate_image_perceptual_hash example_pil (PILImage (''L'', replicate 64 200)) = Some ''0000000000000000''"
proof -
  have a: "load_image_from_input example_pil (PILImage (''L'', replicate 64 200)) = Inr (''L'', replicate 64 200)"
    by simp
  have b: "prepare_image_for_hash example_pil (''L'', replicate 64 200) (8, 8) ''L'' = Inr (''L'', replicate 64 200)"
    by (simp add: prepare_image_for_hash_def example_pil_def)
  have c: "getdata example_pil (''L'', replicate 64 200) = replicate 64 200"
    by (simp add: example_pil_def)
  from a b c C10_uniform_image [OF a b c] show ?thesis by blast
qed

section \<open>Properties of the combined entry point\<close>

text \<open>
  Claim C2, as the code has it. The success flag is false whenever either
  sub-computation fails, and a false flag means that at least one of the two fields is
  empty. Each field carries the result of its own sub-computation, so the fingerprint
  that was computed stays in the result when the other one fails. When the input cannot
  be loaded at all, both fields are empty.
\<close>

theorem C2_success_flag_and_fields:
  "(calculate_image_hash lib image_input = None \<or>
    calculate_image_perceptual_hash lib image_input = None \<longrightarrow>
      hashes_success (calculate_image_hashes lib image_input) = False) \<and>
   (hashes_success (calculate_image_hashes lib image_input) = False \<longrightarrow>
      hashes_image_hash (calculate_image_hashes lib image_input) = None \<or>
      hashes_perceptual_hash (calculate_image_hashes lib image_input) = None) \<and>
   hashes_image_hash (calculate_image_hashes lib image_input) =
     calculate_image_hash lib image_input \<and>
   hashes_perceptual_hash (calculate_image_hashes lib image_input) =
     calculate_image_perceptual_hash lib image_input \<and>
   (load_image_from_input lib image_input = Inl e \<longrightarrow>
      calculate_image_hashes lib image_input =
        \<lparr>hashes_image_hash = None, hashes_perceptual_hash = None, hashes_success = False\<rparr>)"
  by (auto simp add: calculate_image_hashes_def Let_def calculate_image_hash_def
        calculate_image_perceptual_hash_def)

theorem C2_success_flag_and_fields_witness:
  "calculate_image_perceptual_hash example_pil (Bytes ''not an image'') = None \<and>
   load_image_from_input example_pil (Bytes ''not an image'') = Inl UnidentifiedImageError \<and>
   hashes_success (calculate_image_hashes example_pil (Bytes ''not an image'')) = False \<and>
   calculate_image_hashes example_pil (Bytes ''not an image'') =
     \<lparr>hashes_image_hash = None, hashes_perceptual_hash = None, hashes_success = False\<rparr>"
proof -
  have l: "load_image_from_input example_pil (Bytes ''not an image'') = Inl UnidentifiedImageError"
    by (simp add: example_pil_def)
  have p: "calculate_image_perceptual_hash example_pil (Bytes ''not an image'') = None"
    by (simp add: calculate_image_perceptual_hash_def example_pil_def)
  from C2_success_flag_and_fields [of example_pil "Bytes ''not an image''" UnidentifiedImageError] l p
  show ?thesis by simp
qed

text \<open>
  Claim C2, as stated, fails on an image in mode LAB: its conversion to RGB works, so the
  content hash is computed, while its conversion to L raises, so the perceptual hash is
  missing. The flag is false and the content hash is still returned.
\<close>

theorem C2_partial_fingerprint_returned:
  "calculate_image_perceptual_hash example_pil (PILImage (''LAB'', replicate 64 0)) = None \<and>
   hashes_success (calculate_image_hashes example_pil (PILImage (''LAB'', replicate 64 0))) = False \<and>
   hashes_image_hash (calculate_image_hashes example_pil (PILImage (''LAB'', replicate 64 0))) =
     Some ''aaaaaaaaaaaaaaaaaaaaaaaaaaaaaaaaaaaaaaaaaaaaaaaaaaaaaaaaaaaaaaaa''"
  by (simp add: calculate_image_hashes_def Let_def calculate_image_hash_def
        calculate_image_perceptual_hash_def prepare_image_for_hash_def example_pil_def
        replicate_numeral_Cons)

section \<open>Properties of file information\<close>

lemma startswith_Nil: "startswith header [] = True"
  by (simp add: startswith_def)

lemma startswith_Cons:
  "startswith header (x # p) = (\<exists>rest. header = x # rest \<and> startswith rest p)"
  by (cases header) (auto simp add: startswith_def)

lemma startswith_take:
  "length p \<le> n \<Longrightarrow> startswith (take n content) p = startswith content p"
  by (simp add: startswith_def min_def)

lemma detect_mime_type_by_content_table:
  assumes "open_rb env file_path = Inr content"
  shows "(startswith content [CHR 0xFF, CHR 0xD8, CHR 0xFF] \<longrightarrow>
            detect_mime_type_by_content env file_path = Some ''image/jpeg'') \<and>
         (startswith content
            [CHR 0x89, CHR ''P'', CHR ''N'', CHR ''G'', CHR 0x0D, CHR 0x0A, CHR 0x1A, CHR 0x0A] \<longrightarrow>
            detect_mime_type_by_content env file_path = Some ''image/png'') \<and>
         (startswith content ''GIF87a'' \<or> startswith content ''GIF89a'' \<longrightarrow>
            detect_mime_type_by_content env file_path = Some ''image/gif'') \<and>
         (startswith content ''RIFF'' \<and> bytes_in ''WEBP'' (take 12 content) \<longrightarrow>
            detect_mime_type_by_content env file_path = Some ''image/webp'') \<and>
         (startswith content ''BM'' \<longrightarrow>
            detect_mime_type_by_content env file_path = Some ''image/bmp'') \<and>
         (startswith content [CHR 0x00, CHR 0x00, CHR 0x01, CHR 0x00] \<longrightarrow>
            detect_mime_type_by_content env file_path = Some ''image/x-icon'') \<and>
         (\<not> startswith content [CHR 0xFF, CHR 0xD8, CHR 0xFF] \<and>
          \<not> startswith content
            [CHR 0x89, CHR ''P'', CHR ''N'', CHR ''G'', CHR 0x0D, CHR 0x0A, CHR 0x1A, CHR 0x0A] \<and>
          \<not> startswith content ''GIF87a'' \<and> \<not> startswith content ''GIF89a'' \<and>
          \<not> (startswith content ''RIFF'' \<and> bytes_in ''WEBP'' (take 12 content)) \<and>
          \<not> startswith content ''BM'' \<and>
          \<not> startswith content [CHR 0x00, CHR 0x00, CHR 0x01, CHR 0x00] \<longrightarrow>
            detect_mime_type_by_content env file_path = Some ''application/octet-stream'')"
proof -
  have d: "detect_mime_type_by_content env file_path =
     (if startswith content [CHR 0xFF, CHR 0xD8, CHR 0xFF] then Some ''image/jpeg''
      else if startswith content
                [CHR 0x89, CHR ''P'', CHR ''N'', CHR ''G'', CHR 0x0D, CHR 0x0A, CHR 0x1A, CHR 0x0A]
        then Some ''image/png''
      else if startswith content ''GIF87a'' \<or> startswith content ''GIF89a''
        then Some ''image/gif''
      else if startswith content ''RIFF'' \<and> bytes_in ''WEBP'' (take 12 content)
        then Some ''image/webp''
      else if startswith content ''BM'' then Some ''image/bmp''
      else if startswith content [CHR 0x00, CHR 0x00, CHR 0x01, CHR 0x00]
        then Some ''image/x-icon''
      else Some ''application/octet-stream'')"
    using assms by (simp add: detect_mime_type_by_content_def Let_def startswith_take)
  show ?thesis
    unfolding d by (auto simp add: startswith_Cons startswith_Nil)
qed


lemma get_file_info_mime:
  "os_stat_size env file_path = Inr st_size \<Longrightarrow>
   mime_type (get_file_info env file_path) =
     (if py_not (guess_type env file_path) then detect_mime_type_by_content env file_path
      else guess_type env file_path)"
  by (simp add: get_file_info_def Let_def)

text \<open>
  Claim C9. For a file that exists and can be read, \<open>get_file_info\<close> takes the mime
  type from the file extension when that lookup yields one; when it yields nothing, the
  type comes from the first bytes of the file: FF D8 FF is image/jpeg, the eight-byte PNG
  signature is image/png, GIF87a and GIF89a are image/gif, RIFF with WEBP within the
  first twelve bytes is image/webp, BM is image/bmp, 00 00 01 00 is image/x-icon, and
  anything else is application/octet-stream. In particular a file without extension
  whose bytes begin FF D8 FF is image/jpeg.
\<close>

theorem C9_mime_resolution:
  "os_stat_size env file_path = Inr st_size \<Longrightarrow>
   open_rb env file_path = Inr content \<Longrightarrow>
   (\<not> py_not (guess_type env file_path) \<longrightarrow>
      mime_type (get_file_info env file_path) = guess_type env file_path) \<and>
   (py_not (guess_type env file_path) \<longrightarrow>
      (startswith content [CHR 0xFF, CHR 0xD8, CHR 0xFF] \<longrightarrow>
         mime_type (get_file_info env file_path) = Some ''image/jpeg'') \<and>
      (startswith content
         [CHR 0x89, CHR ''P'', CHR ''N'', CHR ''G'', CHR 0x0D, CHR 0x0A, CHR 0x1A, CHR 0x0A] \<longrightarrow>
         mime_type (get_file_info env file_path) = Some ''image/png'') \<and>
      (startswith content ''GIF87a'' \<or> startswith content ''GIF89a'' \<longrightarrow>
         mime_type (get_file_info env file_path) = Some ''image/gif'') \<and>
      (startswith content ''RIFF'' \<and> bytes_in ''WEBP'' (take 12 content) \<longrightarrow>
         mime_type (get_file_info env file_path) = Some ''image/webp'') \<and>
      (startswith content ''BM'' \<longrightarrow>
         mime_type (get_file_info env file_path) = Some ''image/bmp'') \<and>
      (startswith content [CHR 0x00, CHR 0x00, CHR 0x01, CHR 0x00] \<longrightarrow>
         mime_type (get_file_info env file_path) = Some ''image/x-icon'') \<and>
      (\<not> startswith content [CHR 0xFF, CHR 0xD8, CHR 0xFF] \<and>
       \<not> startswith content
         [CHR 0x89, CHR ''P'', CHR ''N'', CHR ''G'', CHR 0x0D, CHR 0x0A, CHR 0x1A, CHR 0x0A] \<and>
       \<not> startswith content ''GIF87a'' \<and> \<not> startswith content ''GIF89a'' \<and>
       \<not> (startswith content ''RIFF'' \<and> bytes_in ''WEBP'' (take 12 content)) \<and>
       \<not> startswith content ''BM'' \<and>
       \<not> startswith content [CHR 0x00, CHR 0x00, CHR 0x01, CHR 0x00] \<longrightarrow>
         mime_type (get_file_info env file_path) = Some ''application/octet-stream''))"
proof -
  assume st: "os_stat_size env file_path = Inr st_size"
    and rd: "open_rb env file_path = Inr content"
  show ?thesis
    unfolding get_file_info_mime [OF st]
    using detect_mime_type_by_content_table [OF rd] by simp
qed

theorem C9_mime_resolution_witness:
  "os_stat_size example_os ''upload_0001'' = Inr 6 \<and>
   open_rb example_os ''upload_0001'' =
     Inr [CHR 0xFF, CHR 0xD8, CHR 0xFF, CHR 0xE0, CHR 0x00, CHR 0x10] \<and>
   py_not (guess_type example_os ''upload_0001'') \<and>
   startswith [CHR 0xFF, CHR 0xD8, CHR 0xFF, CHR 0xE0, CHR 0x00, CHR 0x10]
     [CHR 0xFF, CHR 0xD8, CHR 0xFF] \<and>
   mime_type (get_file_info example_os ''upload_0001'') = Some ''image/jpeg'' \<and>
   guess_type example_os ''logo.png'' = Some ''image/png'' \<and>
   mime_type (get_file_info example_os ''logo.png'') = Some ''image/png''"
proof -
  have st: "os_stat_size example_os ''upload_0001'' = Inr 6"
    by (simp add: example_os_def)
  have rd: "open_rb example_os ''upload_0001'' =
      Inr [CHR 0xFF, CHR 0xD8, CHR 0xFF, CHR 0xE0, CHR 0x00, CHR 0x10]"
    by (simp add: example_os_def)
  have no_ext: "py_not (guess_type example_os ''upload_0001'')"
    by (simp add: example_os_def py_not_def)
  have magic: "startswith [CHR 0xFF, CHR 0xD8, CHR 0xFF, CHR 0xE0, CHR 0x00, CHR 0x10]
      [CHR 0xFF, CHR 0xD8, CHR 0xFF]"
    by (simp add: startswith_def)
  from C9_mime_resolution [OF st rd] no_ext magic
  have sniffed: "mime_type (get_file_info example_os ''upload_0001'') = Some ''image/jpeg''"
    by blast
  have st': "os_stat_size example_os ''logo.png'' = Inr 3"
    by (simp add: example_os_def)
  have rd': "open_rb example_os ''logo.png'' = Inr ''abc''"
    by (simp add: example_os_def)
  have ext: "guess_type example_os ''logo.png'' = Some ''image/png''"
    by (simp add: example_os_def)
  then have "\<not> py_not (guess_type example_os ''logo.png'')"
    by (simp add: py_not_def)
  with C9_mime_resolution [OF st' rd']
  have "mime_type (get_file_info example_os ''logo.png'') = guess_type example_os ''logo.png''"
    by blast
  then have by_extension: "mime_type (get_file_info example_os ''logo.png'') = Some ''image/png''"
    by (simp only: ext)
  from st rd no_ext magic sniffed ext by_extension show ?thesis
    by (intro conjI)
qed

section \<open>Properties of the duplicate grouper\<close>

lemma hash_groups_step_distinct:
  "distinct (map fst hash_groups) \<Longrightarrow> distinct (map fst (hash_groups_step meta hash_groups))"
  by (simp add: hash_groups_step_def distinct_update split: option.split)

lemma hash_groups_step_map_of:
  "map_of (hash_groups_step meta hash_groups) =
     (map_of hash_groups)(image_hash meta \<mapsto>
        (case map_of hash_groups (image_hash meta) of
           None \<Rightarrow> [meta] | Some metas \<Rightarrow> metas @ [meta]))"
  by (simp add: hash_groups_step_def update_conv' split: option.split)

lemma hash_groups_fold_distinct:
  "distinct (map fst hash_groups) \<Longrightarrow>
   distinct (map fst (fold hash_groups_step metadata_list hash_groups))"
  by (induction metadata_list arbitrary: hash_groups) (simp_all add: hash_groups_step_distinct)

lemma hash_groups_fold_map_of:
  "(\<And>k. map_of hash_groups k =
      (if filter (\<lambda>m. image_hash m = k) seen = [] then None
       else Some (filter (\<lambda>m. image_hash m = k) seen))) \<Longrightarrow>
   map_of (fold hash_groups_step metadata_list hash_groups) k =
     (if filter (\<lambda>m. image_hash m = k) (seen @ metadata_list) = [] then None
      else Some (filter (\<lambda>m. image_hash m = k) (seen @ metadata_list)))"
proof (induction metadata_list arbitrary: hash_groups seen k)
  case Nil
  then show ?case by simp
next
  case (Cons meta metadata_list)
  have step: "\<And>k. map_of (hash_groups_step meta hash_groups) k =
      (if filter (\<lambda>m. image_hash m = k) (seen @ [meta]) = [] then None
       else Some (filter (\<lambda>m. image_hash m = k) (seen @ [meta])))"
    by (simp add: hash_groups_step_map_of Cons.prems)
  show ?case
    using Cons.IH [of "hash_groups_step meta hash_groups" "seen @ [meta]" k, OF step]
    by simp
qed

lemma hash_groups_members:
  "((h, metas) \<in> set (fold hash_groups_step metadata_list [])) =
   (metas \<noteq> [] \<and> metas = filter (\<lambda>m. image_hash m = h) metadata_list)"
proof -
  have d: "distinct (map fst (fold hash_groups_step metadata_list []))"
    by (rule hash_groups_fold_distinct) simp
  have m: "map_of (fold hash_groups_step metadata_list []) h =
      (if filter (\<lambda>m. image_hash m = h) metadata_list = [] then None
       else Some (filter (\<lambda>m. image_hash m = h) metadata_list))"
    using hash_groups_fold_map_of [of "[]" "[]" metadata_list h] by simp
  have "((h, metas) \<in> set (fold hash_groups_step metadata_list [])) =
      (map_of (fold hash_groups_step metadata_list []) h = Some metas)"
    using map_of_eq_Some_iff [OF d, of h metas] by simp
  then show ?thesis
    unfolding m by (auto split: if_splits)
qed

lemma fold_duplicates_step:
  "fold duplicates_step hash_groups duplicates =
   duplicates @
   map (\<lambda>item. \<lparr>dup_image_hash = fst item, dup_count = length (snd item), dup_images = snd item\<rparr>)
     (filter (\<lambda>item. length (snd item) > 1) hash_groups)"
  by (induction hash_groups arbitrary: duplicates) (simp_all add: duplicates_step_def split: prod.split)

lemma find_duplicate_images_eq:
  "find_duplicate_images (Inr metadata_list) =
   map (\<lambda>item. \<lparr>dup_image_hash = fst item, dup_count = length (snd item), dup_images = snd item\<rparr>)
     (filter (\<lambda>item. length (snd item) > 1) (fold hash_groups_step metadata_list []))"
  by (simp add: find_duplicate_images_def fold_duplicates_step)

lemma find_duplicate_images_distinct:
  "distinct (map dup_image_hash (find_duplicate_images (Inr metadata_list)))"
proof -
  have "distinct (map fst (fold hash_groups_step metadata_list []))"
    by (rule hash_groups_fold_distinct) simp
  then have "distinct (map fst (filter (\<lambda>item. length (snd item) > 1)
      (fold hash_groups_step metadata_list [])))"
    by (rule distinct_map_filter)
  then show ?thesis
    by (simp add: find_duplicate_images_eq comp_def)
qed

lemma find_duplicate_images_set:
  "set (find_duplicate_images (Inr metadata_list)) =
   (\<lambda>h. \<lparr>dup_image_hash = h,
          dup_count = length (filter (\<lambda>m. image_hash m = h) metadata_list),
          dup_images = filter (\<lambda>m. image_hash m = h) metadata_list\<rparr>) `
     {h. 2 \<le> length (filter (\<lambda>m. image_hash m = h) metadata_list)}"
  (is "?L = ?f ` ?H")
proof (rule set_eqI)
  fix g
  have "g \<in> ?L \<longleftrightarrow>
    (\<exists>h metas. (h, metas) \<in> set (fold hash_groups_step metadata_list []) \<and> 1 < length metas \<and>
       g = \<lparr>dup_image_hash = h, dup_count = length metas, dup_images = metas\<rparr>)"
    by (auto simp add: find_duplicate_images_eq image_iff)
  also have "\<dots> \<longleftrightarrow> (\<exists>h. 2 \<le> length (filter (\<lambda>m. image_hash m = h) metadata_list) \<and> g = ?f h)"
    unfolding hash_groups_members by auto
  also have "\<dots> \<longleftrightarrow> g \<in> ?f ` ?H"
    by auto
  finally show "g \<in> ?L \<longleftrightarrow> g \<in> ?f ` ?H" .
qed

text \<open>
  Claim C5. \<open>find_duplicate_images\<close> returns exactly one group for each
  fingerprint that at least two records share: the fingerprints of the groups are
  pairwise different, and the groups are exactly the buckets of size 2 or more, each
  bucket holding the records with that fingerprint in input order together with their
  number. Three records with the fingerprint of 64 letters a and one with 64 letters b
  give one group, of size 3.
\<close>

theorem C5_duplicate_groups:
  "distinct (map dup_image_hash (find_duplicate_images (Inr metadata_list))) \<and>
   set (find_duplicate_images (Inr metadata_list)) =
     (\<lambda>h. \<lparr>dup_image_hash = h,
            dup_count = length (filter (\<lambda>m. image_hash m = h) metadata_list),
            dup_images = filter (\<lambda>m. image_hash m = h) metadata_list\<rparr>) `
       {h. 2 \<le> length (filter (\<lambda>m. image_hash m = h) metadata_list)} \<and>
   find_duplicate_images (Inr
     [\<lparr>meta_id = 1, image_id = 11, image_hash = Some (replicate 64 CHR ''a''), perceptual_hash = None\<rparr>,
      \<lparr>meta_id = 2, image_id = 12, image_hash = Some (replicate 64 CHR ''b''), perceptual_hash = None\<rparr>,
      \<lparr>meta_id = 3, image_id = 13, image_hash = Some (replicate 64 CHR ''a''), perceptual_hash = None\<rparr>,
      \<lparr>meta_id = 4, image_id = 14, image_hash = Some (replicate 64 CHR ''a''), perceptual_hash = None\<rparr>]) =
     [\<lparr>dup_image_hash = Some (replicate 64 CHR ''a''), dup_count = 3,
       dup_images =
         [\<lparr>meta_id = 1, image_id = 11, image_hash = Some (replicate 64 CHR ''a''), perceptual_hash = None\<rparr>,
          \<lparr>meta_id = 3, image_id = 13, image_hash = Some (replicate 64 CHR ''a''), perceptual_hash = None\<rparr>,
          \<lparr>meta_id = 4, image_id = 14, image_hash = Some (replicate 64 CHR ''a''), perceptual_hash = None\<rparr>]\<rparr>]"
proof -
  have example: "find_duplicate_images (Inr
     [\<lparr>meta_id = 1, image_id = 11, image_hash = Some (replicate 64 CHR ''a''), perceptual_hash = None\<rparr>,
      \<lparr>meta_id = 2, image_id = 12, image_hash = Some (replicate 64 CHR ''b''), perceptual_hash = None\<rparr>,
      \<lparr>meta_id = 3, image_id = 13, image_hash = Some (replicate 64 CHR ''a''), perceptual_hash = None\<rparr>,
      \<lparr>meta_id = 4, image_id = 14, image_hash = Some (replicate 64 CHR ''a''), perceptual_hash = None\<rparr>]) =
     [\<lparr>dup_image_hash = Some (replicate 64 CHR ''a''), dup_count = 3,
       dup_images =
         [\<lparr>meta_id = 1, image_id = 11, image_hash = Some (replicate 64 CHR ''a''), perceptual_hash = None\<rparr>,
          \<lparr>meta_id = 3, image_id = 13, image_hash = Some (replicate 64 CHR ''a''), perceptual_hash = None\<rparr>,
          \<lparr>meta_id = 4, image_id = 14, image_hash = Some (replicate 64 CHR ''a''), perceptual_hash = None\<rparr>]\<rparr>]"
    by (simp add: find_duplicate_images_def hash_groups_step_def duplicates_step_def
          del: replicate.simps)
  show ?thesis
    by (intro conjI find_duplicate_images_distinct find_duplicate_images_set example)
qed

section \<open>Properties of the similarity clusterer\<close>

lemma similar_inner_fold:
  "perceptual_hash meta1 = Some hash1 \<Longrightarrow> hash1 \<noteq> [] \<Longrightarrow>
   fold (similar_inner_step threshold hash1) later similar_images =
   similar_images @ filter (within_threshold threshold meta1) later"
  by (induction later arbitrary: similar_images)
     (simp_all add: similar_inner_step_def within_threshold_def split: option.split)

lemma drop_as_indices: "drop k xs = map (nth xs) [k..<length xs]"
proof -
  have "drop k xs = drop k (map (nth xs) [0..<length xs])"
    by (simp add: map_nth)
  also have "\<dots> = map (nth xs) [k..<length xs]"
    by (simp add: drop_map)
  finally show ?thesis .
qed

lemma filter_later_as_indices:
  "filter (within_threshold threshold (metadata_list ! i)) (drop (Suc i) metadata_list) =
   map (nth metadata_list) (later_within threshold metadata_list i)"
  by (subst drop_as_indices) (simp add: later_within_def filter_map comp_def)

lemma later_within_no_fingerprint:
  "py_not (perceptual_hash (metadata_list ! i)) \<Longrightarrow> later_within threshold metadata_list i = []"
  by (auto simp add: later_within_def within_threshold_def py_not_def filter_empty_conv
        split: option.splits)

lemma similar_outer_step_eq:
  "similar_outer_step threshold metadata_list i similar_groups =
   similar_groups @
   (if later_within threshold metadata_list i \<noteq> []
    then [\<lparr>sim_threshold = threshold,
           sim_count = Suc (length (later_within threshold metadata_list i)),
           sim_images = metadata_list ! i #
             map (nth metadata_list) (later_within threshold metadata_list i)\<rparr>]
    else [])"
proof (cases "py_not (perceptual_hash (metadata_list ! i))")
  case True
  then show ?thesis
    by (auto simp add: similar_outer_step_def later_within_no_fingerprint py_not_def Let_def
          split: option.splits)
next
  case False
  then obtain hash1 where h: "perceptual_hash (metadata_list ! i) = Some hash1" "hash1 \<noteq> []"
    by (auto simp add: py_not_def split: option.splits)
  show ?thesis
    by (simp add: similar_outer_step_def Let_def h similar_inner_fold [OF h]
          filter_later_as_indices)
qed

lemma fold_similar_outer_step:
  "fold (similar_outer_step threshold metadata_list) indices similar_groups =
   similar_groups @
   map (\<lambda>i. \<lparr>sim_threshold = threshold,
               sim_count = Suc (length (later_within threshold metadata_list i)),
               sim_images = metadata_list ! i #
                 map (nth metadata_list) (later_within threshold metadata_list i)\<rparr>)
     (filter (\<lambda>i. later_within threshold metadata_list i \<noteq> []) indices)"
  by (induction indices arbitrary: similar_groups) (simp_all add: similar_outer_step_eq)

lemma find_similar_images_eq:
  "find_similar_images (Inr metadata_list) threshold =
   map (\<lambda>i. \<lparr>sim_threshold = threshold,
               sim_count = Suc (length (later_within threshold metadata_list i)),
               sim_images = metadata_list ! i #
                 map (nth metadata_list) (later_within threshold metadata_list i)\<rparr>)
     (filter (\<lambda>i. later_within threshold metadata_list i \<noteq> []) [0..<length metadata_list])"
  by (simp add: find_similar_images_def fold_similar_outer_step)

text \<open>
  Claim C4. \<open>find_similar_images\<close> visits the anchors in input order. For the
  anchor at index \<open>i\<close> it collects exactly the later indices whose record is within
  the threshold of the anchor, and emits the group, anchor first and members in input
  order, exactly when there is at least one member. Nothing is marked as visited: on the
  fingerprints \<open>0000000000000000\<close>, \<open>0000000000000001\<close> and
  \<open>0000000000000003\<close> with threshold 2, the second record is a member of the first
  group and the anchor of the second, and the third record is in both groups.
\<close>

theorem C4_anchor_scan:
  "find_similar_images (Inr metadata_list) threshold =
     map (\<lambda>i. \<lparr>sim_threshold = threshold,
                 sim_count = Suc (length (later_within threshold metadata_list i)),
                 sim_images = metadata_list ! i #
                   map (nth metadata_list) (later_within threshold metadata_list i)\<rparr>)
       (filter (\<lambda>i. later_within threshold metadata_list i \<noteq> []) [0..<length metadata_list]) \<and>
   find_similar_images (Inr
     [\<lparr>meta_id = 0, image_id = 10, image_hash = None, perceptual_hash = Some ''0000000000000000''\<rparr>,
      \<lparr>meta_id = 1, image_id = 11, image_hash = None, perceptual_hash = Some ''0000000000000001''\<rparr>,
      \<lparr>meta_id = 2, image_id = 12, image_hash = None, perceptual_hash = Some ''0000000000000003''\<rparr>]) 2 =
     [\<lparr>sim_threshold = 2, sim_count = 3,
       sim_images =
         [\<lparr>meta_id = 0, image_id = 10, image_hash = None, perceptual_hash = Some ''0000000000000000''\<rparr>,
          \<lparr>meta_id = 1, image_id = 11, image_hash = None, perceptual_hash = Some ''0000000000000001''\<rparr>,
          \<lparr>meta_id = 2, image_id = 12, image_hash = None, perceptual_hash = Some ''0000000000000003''\<rparr>]\<rparr>,
      \<lparr>sim_threshold = 2, sim_count = 2,
       sim_images =
         [\<lparr>meta_id = 1, image_id = 11, image_hash = None, perceptual_hash = Some ''0000000000000001''\<rparr>,
          \<lparr>meta_id = 2, image_id = 12, image_hash = None, perceptual_hash = Some ''0000000000000003''\<rparr>]\<rparr>]"
proof -
  have example: "find_similar_images (Inr
     [\<lparr>meta_id = 0, image_id = 10, image_hash = None, perceptual_hash = Some ''0000000000000000''\<rparr>,
      \<lparr>meta_id = 1, image_id = 11, image_hash = None, perceptual_hash = Some ''0000000000000001''\<rparr>,
      \<lparr>meta_id = 2, image_id = 12, image_hash = None, perceptual_hash = Some ''0000000000000003''\<rparr>]) 2 =
     [\<lparr>sim_threshold = 2, sim_count = 3,
       sim_images =
         [\<lparr>meta_id = 0, image_id = 10, image_hash = None, perceptual_hash = Some ''0000000000000000''\<rparr>,
          \<lparr>meta_id = 1, image_id = 11, image_hash = None, perceptual_hash = Some ''0000000000000001''\<rparr>,
          \<lparr>meta_id = 2, image_id = 12, image_hash = None, perceptual_hash = Some ''0000000000000003''\<rparr>]\<rparr>,
      \<lparr>sim_threshold = 2, sim_count = 2,
       sim_images =
         [\<lparr>meta_id = 1, image_id = 11, image_hash = None, perceptual_hash = Some ''0000000000000001''\<rparr>,
          \<lparr>meta_id = 2, image_id = 12, image_hash = None, perceptual_hash = Some ''0000000000000003''\<rparr>]\<rparr>]"
    by (simp add: find_similar_images_def similar_outer_step_def similar_inner_step_def
          calculate_hamming_distance_def hamming_step_def upt_conv_Cons Let_def)
  show ?thesis
    by (intro conjI find_similar_images_eq example)
qed





section \<open>The perceptual hasher against its specification\<close>

lemma pack_step: "push_bit 1 (w :: 64 word) OR of_bool b = 2 * w + of_bool b"
proof -
  have "(2 * w) AND of_bool b = 0"
    by (cases b) (simp_all add: and_one_eq flip: even_iff_mod_2_eq_zero)
  then have "2 * w + of_bool b = (2 * w) OR of_bool b"
    by (rule disjunctive_add_eq_or)
  then show ?thesis
    by (simp add: push_bit_eq_mult mult.commute)
qed

lemma nibble: "unat (drop_bit k (w :: 64 word) AND 15) = (unat w div 2 ^ k) mod 16"
proof -
  have "unat (drop_bit k w AND 15) = drop_bit k (unat w) AND mask 4"
    by (simp add: unsigned_and_eq unat_drop_bit_eq mask_numeral)
  also have "\<dots> = take_bit 4 (drop_bit k (unat w))"
    by (simp add: take_bit_eq_mask)
  also have "\<dots> = (unat w div 2 ^ k) mod 16"
    by (simp add: take_bit_eq_mod drop_bit_eq_div)
  finally show ?thesis .
qed


lemma zero_pad_snoc: "zero_pad (Suc width) (s @ [d]) = zero_pad width s @ [d]"
  by (simp add: zero_pad_def)

lemma hex_digits_small: "m < 16 \<Longrightarrow> hex_digits m = [hex_digit m]"
  by (simp add: hex_digits.simps)

lemma hex_digits_large:
  "\<not> m < 16 \<Longrightarrow> hex_digits m = hex_digits (m div 16) @ [hex_digit (m mod 16)]"
  by (subst hex_digits.simps) simp

lemma zero_pad_hex_digits_step:
  "zero_pad (Suc (Suc k)) (hex_digits m) =
   zero_pad (Suc k) (hex_digits (m div 16)) @ [hex_digit (m mod 16)]"
proof (cases "m < 16")
  case True
  then have "zero_pad (Suc (Suc k)) (hex_digits m) = replicate (Suc k) CHR ''0'' @ [hex_digit m]"
    by (simp add: hex_digits_small zero_pad_def)
  moreover from True have "zero_pad (Suc k) (hex_digits (m div 16)) = replicate (Suc k) CHR ''0''"
    by (simp add: hex_digits_small zero_pad_def hex_digit_def replicate_append_same)
  ultimately show ?thesis
    using True by simp
next
  case False
  then show ?thesis
    by (simp add: hex_digits_large zero_pad_snoc)
qed

lemma zero_pad_hex_digits:
  "m < 16 ^ Suc k \<Longrightarrow>
   zero_pad (Suc k) (hex_digits m) =
   map (\<lambda>i. hex_digit ((m div 16 ^ (k - i)) mod 16)) [0..<Suc k]"
proof (induction k arbitrary: m)
  case 0
  then show ?case
    by (simp add: hex_digits_small zero_pad_def)
next
  case (Suc k)
  from Suc.prems have small: "m div 16 < 16 ^ Suc k"
    by (simp add: less_mult_imp_div_less)
  have shift: "map (\<lambda>i. hex_digit ((m div 16 ^ (Suc k - i)) mod 16)) [0..<Suc k] =
      map (\<lambda>i. hex_digit (((m div 16) div 16 ^ (k - i)) mod 16)) [0..<Suc k]"
  proof (rule map_cong [OF refl])
    fix i assume "i \<in> set [0..<Suc k]"
    then have "Suc k - i = Suc (k - i)"
      by auto
    then show "hex_digit ((m div 16 ^ (Suc k - i)) mod 16) =
        hex_digit (((m div 16) div 16 ^ (k - i)) mod 16)"
      by (simp add: div_mult2_eq)
  qed
  have "map (\<lambda>i. hex_digit ((m div 16 ^ (Suc k - i)) mod 16)) [0..<Suc (Suc k)] =
      map (\<lambda>i. hex_digit ((m div 16 ^ (Suc k - i)) mod 16)) [0..<Suc k] @ [hex_digit (m mod 16)]"
    by simp
  also have "\<dots> = zero_pad (Suc k) (hex_digits (m div 16)) @ [hex_digit (m mod 16)]"
    unfolding shift using Suc.IH [OF small] by simp
  also have "\<dots> = zero_pad (Suc (Suc k)) (hex_digits m)"
    by (rule zero_pad_hex_digits_step [symmetric])
  finally show ?case by simp
qed

lemma format_016x_digits:
  "v < 2 ^ 64 \<Longrightarrow>
   format_016x (int v) = map (\<lambda>i. hex_digit ((v div 16 ^ (15 - i)) mod 16)) [0..<16]"
proof -
  assume "v < 2 ^ 64"
  then have "v < 16 ^ Suc 15"
    by simp
  from zero_pad_hex_digits [OF this] show ?thesis
    by (simp add: format_016x_def)
qed

lemma hex16_digits:
  "v < 2 ^ 64 \<Longrightarrow>
   hex16 (of_nat v) = map (\<lambda>i. hex_digit ((v div 16 ^ (15 - i)) mod 16)) [0..<16]"
proof -
  assume v: "v < 2 ^ 64"
  then have u: "unat (of_nat v :: 64 word) = v"
    by (simp add: unat_of_nat)
  have p: "\<And>k. (2::nat) ^ (4 * (15 - k)) = 16 ^ (15 - k)"
    by (simp add: power_mult)
  show ?thesis
    unfolding hex16_def nibble u p ..
qed


lemma fold_base2_bits:
  "fold (\<lambda>c n. 2 * n + (if c = CHR ''1'' then 1 else 0))
     (map (\<lambda>b. if b then CHR ''1'' else CHR ''0'') bits) (int a) =
   int (fold (\<lambda>b n. 2 * n + of_bool b) bits a)"
proof (induction bits arbitrary: a)
  case Nil
  show ?case by simp
next
  case (Cons b bits)
  have "2 * int a + (if (if b then CHR ''1'' else CHR ''0'') = CHR ''1'' then 1 else 0) =
      int (2 * a + of_bool b)"
    by simp
  then show ?case
    using Cons.IH [of "2 * a + of_bool b"] by simp
qed

lemma int_base2_bits:
  "bits \<noteq> [] \<Longrightarrow>
   int_base2 (map (\<lambda>b. if b then CHR ''1'' else CHR ''0'') bits) =
   Inr (int (fold (\<lambda>b n. 2 * n + of_bool b) bits 0))"
  using fold_base2_bits [of bits 0]
  by (auto simp add: int_base2_def list_all_iff)

lemma bits_value_bound:
  "fold (\<lambda>b n. 2 * n + of_bool b) bits (a :: nat) < (a + 1) * 2 ^ length bits"
proof (induction bits arbitrary: a)
  case Nil
  show ?case by simp
next
  case (Cons b bits)
  have "fold (\<lambda>b n. 2 * n + of_bool b) bits (2 * a + of_bool b)
      < (2 * a + of_bool b + 1) * 2 ^ length bits"
    by (rule Cons.IH)
  also have "\<dots> \<le> (2 * a + 2) * 2 ^ length bits"
    by (rule mult_le_mono1) simp
  finally show ?case
    by (simp add: algebra_simps)
qed

lemma pack_msb_first_fold:
  "fold (\<lambda>b w. push_bit 1 w OR of_bool b) bits (of_nat a :: 64 word) =
   of_nat (fold (\<lambda>b n. 2 * n + of_bool b) bits a)"
proof (induction bits arbitrary: a)
  case Nil
  show ?case by simp
next
  case (Cons b bits)
  have "push_bit 1 (of_nat a :: 64 word) OR of_bool b = of_nat (2 * a + of_bool b)"
    unfolding pack_step by simp
  then show ?case
    using Cons.IH [of "2 * a + of_bool b"] by simp
qed

lemma pack_msb_first_value:
  "pack_msb_first bits = of_nat (fold (\<lambda>b n. 2 * n + of_bool b) bits 0)"
  using pack_msb_first_fold [of bits 0] by (simp add: pack_msb_first_def)

lemma perceptual_hash_of_pixels_spec:
  "length pixels = 64 \<Longrightarrow> perceptual_hash_of_pixels pixels = Inr (spec_perceptual_hash pixels)"
proof -
  assume len: "length pixels = 64"
  then have ne: "pixels \<noteq> []"
    by auto
  let ?v = "fold (\<lambda>b n. 2 * n + of_bool b) (spec_bits pixels) (0 :: nat)"
  have bits: "map (\<lambda>pixel.
        if of_int pixel > (of_int (sum_list pixels) / of_int (int (length pixels)) :: rat)
        then CHR ''1'' else CHR ''0'') pixels =
      map (\<lambda>b. if b then CHR ''1'' else CHR ''0'') (spec_bits pixels)"
    by (simp add: spec_bits_def spec_mean_def len comp_def)
  have nb: "spec_bits pixels \<noteq> []"
    using ne by (simp add: spec_bits_def)
  have "?v < (0 + 1) * 2 ^ length (spec_bits pixels)"
    by (rule bits_value_bound)
  then have bound: "?v < 2 ^ 64"
    by (simp add: spec_bits_def len)
  have "perceptual_hash_of_pixels pixels = Inr (format_016x (int ?v))"
    unfolding perceptual_hash_of_pixels_map [OF ne] bits int_base2_bits [OF nb] by simp
  also have "format_016x (int ?v) = hex16 (of_nat ?v)"
    by (simp only: format_016x_digits [OF bound] hex16_digits [OF bound])
  also have "hex16 (of_nat ?v) = spec_perceptual_hash pixels"
    by (simp only: spec_perceptual_hash_def pack_msb_first_value)
  finally show ?thesis .
qed

text \<open>
  Claim C8. On the 64 pixels of the canonical 8 by 8 grayscale grid, in scan order, the
  perceptual hash is the value the specification describes: the mean of the 64
  intensities, one bit per pixel (1 when strictly greater than the mean), the bits
  packed most significant bit first into an unsigned 64-bit integer, and that integer
  as 16 zero-padded lowercase hexadecimal digits.
\<close>

theorem C8_perceptual_hash_is_mean_threshold:
  "load_image_from_input lib image_input = Inr img \<Longrightarrow>
   prepare_image_for_hash lib img (8, 8) ''L'' = Inr img_processed \<Longrightarrow>
   getdata lib img_processed = pixels \<Longrightarrow>
   length pixels = 64 \<Longrightarrow>
   calculate_image_perceptual_hash lib image_input = Some (spec_perceptual_hash pixels)"
  by (simp add: calculate_image_perceptual_hash_def perceptual_hash_of_pixels_spec)


theorem C8_perceptual_hash_is_mean_threshold_witness:
  "load_image_from_input example_pil
     (PILImage (''L'', concat (replicate 8 [200, 200, 200, 200, 10, 10, 10, 10]))) =
     Inr (''L'', concat (replicate 8 [200, 200, 200, 200, 10, 10, 10, 10])) \<and>
   prepare_image_for_hash example_pil
     (''L'', concat (replicate 8 [200, 200, 200, 200, 10, 10, 10, 10])) (8, 8) ''L'' =
     Inr (''L'', concat (replicate 8 [200, 200, 200, 200, 10, 10, 10, 10])) \<and>
   getdata example_pil (''L'', concat (replicate 8 [200, 200, 200, 200, 10, 10, 10, 10])) =
     concat (replicate 8 [200, 200, 200, 200, 10, 10, 10, 10]) \<and>
   length (concat (replicate 8 [200, 200, 200, 200, 10, 10, 10, 10 :: int])) = 64 \<and>
   calculate_image_perceptual_hash example_pil
     (PILImage (''L'', concat (replicate 8 [200, 200, 200, 200, 10, 10, 10, 10]))) =
     Some ''f0f0f0f0f0f0f0f0'' \<and>
   spec_perceptual_hash (concat (replicate 8 [200, 200, 200, 200, 10, 10, 10, 10])) =
     ''f0f0f0f0f0f0f0f0''"
proof -
  let ?pixels = "concat (replicate 8 [200, 200, 200, 200, 10, 10, 10, 10 :: int])"
  have a: "load_image_from_input example_pil (PILImage (''L'', ?pixels)) = Inr (''L'', ?pixels)"
    by simp
  have b: "prepare_image_for_hash example_pil (''L'', ?pixels) (8, 8) ''L'' = Inr (''L'', ?pixels)"
    by (simp add: prepare_image_for_hash_def example_pil_def)
  have c: "getdata example_pil (''L'', ?pixels) = ?pixels"
    by (simp add: example_pil_def)
  have d: "length ?pixels = 64"
    by (simp add: replicate_numeral_Cons)
  have run: "perceptual_hash_of_pixels ?pixels = Inr ''f0f0f0f0f0f0f0f0''"
    by (simp add: perceptual_hash_of_pixels_def int_base2_def format_016x_def zero_pad_def
          hex_digits.simps hex_digit_def replicate_numeral_Cons)
  have e: "calculate_image_perceptual_hash example_pil (PILImage (''L'', ?pixels)) =
      Some ''f0f0f0f0f0f0f0f0''"
    by (simp only: calculate_image_perceptual_hash_def a b c run sum.case)
  from C8_perceptual_hash_is_mean_threshold [OF a b c d] e
  have f: "spec_perceptual_hash ?pixels = ''f0f0f0f0f0f0f0f0''"
    by simp
  from a b c d e f show ?thesis
    by (intro conjI)
qed

end
